theory Spec2Isabelle
  imports Main
begin

section \<open>The status rotation scheduler of the AnimatedStatus plugin\<close>

text \<open>
  The embedding follows the plugin object of \<^verbatim>\<open>animated status/index.tsx\<close>: the module
  variables \<^verbatim>\<open>currentIndex\<close> and \<^verbatim>\<open>statusInterval\<close>, the field \<^verbatim>\<open>_lastUpdateTime\<close>, and
  the methods \<^verbatim>\<open>isRunning\<close>, \<^verbatim>\<open>stop\<close>, \<^verbatim>\<open>startAnimation\<close>, \<^verbatim>\<open>setStatus\<close>, \<^verbatim>\<open>updateStatus\<close>
  and \<^verbatim>\<open>updateInterval\<close>.

  Each method is a function from the scheduler state to the new state and the list of
  effects it performed, in the order it performed them. One call of an \<^verbatim>\<open>async\<close> method is
  run to its end before the next one starts: interleavings of two calls are not modelled.
  The host (the user-settings API, the toast display, the timer service, the clock and the
  random number generator) is a parameter.
\<close>

subsection \<open>Data\<close>

text \<open>
  \<^verbatim>\<open>interface StatusStep\<close>. A field marked \<^verbatim>\<open>?\<close> is an option; \<open>step_text\<close> is the field \<^verbatim>\<open>text\<close>. \<^verbatim>\<open>expires_at\<close> is not declared
  in the interface, but \<^verbatim>\<open>setStatus\<close> reads it from the object it is given.
\<close>

record StatusStep =
  step_text :: string
  emoji_name :: "string option"
  emoji_id :: "string option"
  category :: "string option"
  status :: "string option"
  expires_at :: "string option"

text \<open>The argument of \<^verbatim>\<open>CustomStatus.updateSetting\<close>. \<^verbatim>\<open>createdAtMs\<close> is
  \<^verbatim>\<open>Date.now().toString()\<close>; the model keeps the number.\<close>

record customStatus =
  cs_text :: string
  emojiName :: string
  emojiId :: string
  createdAtMs :: int
  expiresAtMs :: string

text \<open>\<^verbatim>\<open>settings.store\<close>. The field \<open>animation\<close> is the value of
  \<^verbatim>\<open>safeParseJSON(settings.store.animation)\<close>: the parsed array, or the empty list when the
  stored string is empty, malformed or not an array (the error that \<^verbatim>\<open>safeParseJSON\<close> logs on
  a malformed string is not among the effects). Its elements are taken to be
  \<^verbatim>\<open>StatusStep\<close> objects, as the declared return type says.\<close>

record store =
  timeout :: int
  animation :: "StatusStep list"
  randomize :: bool
  autoStart :: bool

text \<open>A timer made by \<^verbatim>\<open>setInterval\<close>: its period in milliseconds, and its callback: the
  category the callback passes to \<^verbatim>\<open>updateStatus\<close> (it closes over it), and whether it calls
  \<^verbatim>\<open>logger.debug\<close> first, which the callback of \<^verbatim>\<open>startAnimation\<close> does and the one of
  \<^verbatim>\<open>updateInterval\<close> does not.\<close>

record timer =
  period :: int
  tick_category :: "string option"
  tick_debug :: bool

record scheduler =
  currentIndex :: nat
  statusInterval :: "timer option"
  lastUpdateTime :: "int option"

datatype error = HostError | TypeError | NotAvailable

text \<open>What \<^verbatim>\<open>setStatus\<close> returns: \<^verbatim>\<open>{ success, error }\<close>.\<close>

record result =
  success :: bool
  err :: "error option"

datatype log_level = Debug | Info | Warn | Error

datatype toast_type = MESSAGE | SUCCESS | FAILURE

text \<open>
  The messages of the five \<^verbatim>\<open>Toasts.show\<close> calls:
  \<^item> \<open>AddSomeStatusAnimations\<close>: "Add some status animations in settings!"
  \<^item> \<open>NoStatusMessagesInCategory c\<close>: "No status messages in "c" category!"
  \<^item> \<open>StatusAnimationStarted\<close>: "Status animation started!"
  \<^item> \<open>FailedToStart\<close>: "Failed to start status animation"
  \<^item> \<open>StoppedDueToError\<close>: "Status animation stopped due to an error"
\<close>

datatype toast_message =
    AddSomeStatusAnimations
  | NoStatusMessagesInCategory "string option"
  | StatusAnimationStarted
  | FailedToStart
  | StoppedDueToError

text \<open>The effects a method performs on the host.\<close>

datatype event =
    SetStatusCall "StatusStep option"
  | CustomStatusUpdate customStatus bool
  | StatusSettingUpdate string bool
  | Toast toast_message toast_type
  | Wait int
  | ClearInterval timer
  | SetInterval timer
  | Log log_level

text \<open>
  The host as \<^verbatim>\<open>setStatus\<close> sees it: whether
  \<^verbatim>\<open>window.DiscordNative.userDataCache.getCached()\<close> returns an object, whether the lazy
  settings \<^verbatim>\<open>CustomStatus\<close> and \<^verbatim>\<open>StatusSetting\<close> are there, and for each \<^verbatim>\<open>updateSetting\<close>
  call whether its promise resolves (\<open>True\<close>) or rejects.
\<close>

record host =
  getCached_ok :: bool
  CustomStatus_defined :: bool
  CustomStatus_updateSetting :: "customStatus \<Rightarrow> bool"
  StatusSetting_defined :: bool
  StatusSetting_updateSetting :: "string \<Rightarrow> bool"

subsection \<open>JavaScript helpers\<close>

text \<open>Truthiness of an optional string: \<^verbatim>\<open>undefined\<close> and \<^verbatim>\<open>""\<close> are falsy.\<close>

definition truthy :: "string option \<Rightarrow> bool" where
  "truthy v = (case v of None \<Rightarrow> False | Some s \<Rightarrow> s \<noteq> [])"

text \<open>\<^verbatim>\<open>v || d\<close> on an optional string.\<close>

definition or_else :: "string option \<Rightarrow> string \<Rightarrow> string" where
  "or_else v d = (case v of None \<Rightarrow> d | Some s \<Rightarrow> (if s = [] then d else s))"

text \<open>\<^verbatim>\<open>xs[i]\<close>: \<^verbatim>\<open>undefined\<close> out of range.\<close>

definition nth_opt :: "'a list \<Rightarrow> nat \<Rightarrow> 'a option" where
  "nth_opt xs i = (if i < length xs then Some (xs ! i) else None)"

text \<open>\<^verbatim>\<open>category ? animation.filter(step => step.category === category) : animation\<close>\<close>

definition filteredAnimation :: "string option \<Rightarrow> StatusStep list \<Rightarrow> StatusStep list" where
  "filteredAnimation cat anim =
     (if truthy cat then filter (\<lambda>step. category step = cat) anim else anim)"

subsection \<open>isRunning, stop, updateInterval\<close>

definition isRunning :: "scheduler \<Rightarrow> bool" where
  "isRunning s = (statusInterval s \<noteq> None)"

definition stop :: "scheduler \<Rightarrow> scheduler \<times> event list" where
  "stop s =
     (case statusInterval s of
        Some t \<Rightarrow> (s\<lparr>statusInterval := None\<rparr>, [ClearInterval t, Log Info])
      | None \<Rightarrow> (s, []))"

definition updateInterval :: "int \<Rightarrow> scheduler \<Rightarrow> scheduler \<times> event list" where
  "updateInterval newTimeout s =
     (case statusInterval s of
        None \<Rightarrow> (s, [])
      | Some t \<Rightarrow>
          (let intervalTime = max (newTimeout * 1000) 5000;
               t' = \<lparr>period = intervalTime, tick_category = None, tick_debug = False\<rparr>
           in (s\<lparr>statusInterval := Some t'\<rparr>, [ClearInterval t, SetInterval t', Log Info])))"

subsection \<open>setStatus\<close>

text \<open>The inner \<^verbatim>\<open>try\<close> block of \<^verbatim>\<open>setStatus\<close>: the awaited
  \<^verbatim>\<open>StatusSetting.updateSetting\<close> call, then the info log.\<close>

definition statusType_try :: "host \<Rightarrow> string \<Rightarrow> (error + unit) \<times> event list" where
  "statusType_try h v =
     (if StatusSetting_updateSetting h v
      then (Inr (), [StatusSettingUpdate v True, Log Info])
      else (Inl HostError, [StatusSettingUpdate v False]))"

text \<open>The inner \<^verbatim>\<open>try\<close> with its \<^verbatim>\<open>catch (statusError)\<close>, which logs and goes on.\<close>

definition statusType_update :: "host \<Rightarrow> string \<Rightarrow> event list" where
  "statusType_update h v =
     (case statusType_try h v of
        (Inr _, es) \<Rightarrow> es
      | (Inl _, es) \<Rightarrow> es @ [Log Error])"

text \<open>The outer \<^verbatim>\<open>try\<close> block of \<^verbatim>\<open>setStatus\<close>. \<open>Inl\<close> is a throw: from \<^verbatim>\<open>getCached\<close>, from
  reading \<^verbatim>\<open>statusObj.emoji_id\<close> of \<^verbatim>\<open>undefined\<close>, or from the rejected
  \<^verbatim>\<open>CustomStatus.updateSetting\<close>.\<close>

definition setStatus_try :: "host \<Rightarrow> int \<Rightarrow> StatusStep option \<Rightarrow> (error + result) \<times> event list" where
  "setStatus_try h now statusObj =
     (if \<not> getCached_ok h then (Inl HostError, [])
      else if \<not> CustomStatus_defined h
        then (Inr \<lparr>success = False, err = Some NotAvailable\<rparr>, [Log Error])
      else
        (case statusObj of
           None \<Rightarrow> (Inl TypeError, [])
         | Some st \<Rightarrow>
             (let emojiId0 = or_else (emoji_id st) ''0'';
                  emojiId1 = (if emojiId0 = [] then ''0'' else emojiId0);
                  p = \<lparr>cs_text = step_text st,
                       emojiName = or_else (emoji_name st) [],
                       emojiId = emojiId1,
                       createdAtMs = now,
                       expiresAtMs = or_else (expires_at st) ''0''\<rparr>
              in if \<not> CustomStatus_updateSetting h p
                 then (Inl HostError, [CustomStatusUpdate p False])
                 else (Inr \<lparr>success = True, err = None\<rparr>,
                       CustomStatusUpdate p True #
                       (if truthy (status st) \<and> StatusSetting_defined h
                        then statusType_update h (the (status st)) else [])))))"

text \<open>\<^verbatim>\<open>setStatus\<close>: the outer \<^verbatim>\<open>try\<close> with its \<^verbatim>\<open>catch (err)\<close>, which logs and returns
  \<^verbatim>\<open>{ success: false, error: err }\<close>.\<close>

definition setStatus :: "host \<Rightarrow> int \<Rightarrow> StatusStep option \<Rightarrow> (error + result) \<times> event list" where
  "setStatus h now statusObj =
     (case setStatus_try h now statusObj of
        (Inr r, es) \<Rightarrow> (Inr r, es)
      | (Inl e, es) \<Rightarrow> (Inr \<lparr>success = False, err = Some e\<rparr>, es @ [Log Error]))"

subsection \<open>The retry loops\<close>

text \<open>
  Both callers reach \<^verbatim>\<open>setStatus\<close> through \<^verbatim>\<open>this\<close>, so the loops take the method as a
  parameter \<open>setSt\<close>: given the time of the call and the step, it throws (\<open>Inl\<close>) or returns
  (\<open>Inr\<close>), with the effects it performed. The loops never look at the returned object.
  A wait of \<open>d\<close> milliseconds moves the clock by \<open>d\<close>.
\<close>

type_synonym setStatus_method = "int \<Rightarrow> StatusStep option \<Rightarrow> (error + result) \<times> event list"

text \<open>
  The loop of \<^verbatim>\<open>startAnimation\<close>:
  \<^verbatim>\<open>for (let retry = 0; retry < 3; retry++) { try { await this.setStatus(..); initialSetSuccess = true; break; }
     catch (error) { logger.warn(..); if (retry === 2) throw error; await wait(500); } }\<close>
  The result is the throw, or the value of \<^verbatim>\<open>initialSetSuccess\<close> when the loop is left.
\<close>

function initial_set_loop ::
  "setStatus_method \<Rightarrow> StatusStep option \<Rightarrow> int \<Rightarrow> nat \<Rightarrow> (error + bool) \<times> event list" where
  "initial_set_loop setSt st now retry =
     (if retry < 3 then
        (case setSt now st of
           (Inr r, es) \<Rightarrow> (Inr True, SetStatusCall st # es)
         | (Inl e, es) \<Rightarrow>
             (if retry = 2 then (Inl e, SetStatusCall st # es @ [Log Warn])
              else (case initial_set_loop setSt st (now + 500) (retry + 1) of
                      (r, es') \<Rightarrow> (r, SetStatusCall st # es @ [Log Warn, Wait 500] @ es'))))
      else (Inr False, []))"
  by pat_completeness auto
termination
  by (relation "measure (\<lambda>(setSt, st, now, retry). 3 - retry)") auto

text \<open>
  The loop of \<^verbatim>\<open>updateStatus\<close>:
  \<^verbatim>\<open>while (retries > 0) { try { await this.setStatus(..); break; }
     catch (err) { retries--; if (retries <= 0) { logger.error(..); throw err; }
                   logger.warn(..); await wait((4 - retries) * 500); } }\<close>
\<close>

function update_loop ::
  "setStatus_method \<Rightarrow> StatusStep option \<Rightarrow> int \<Rightarrow> int \<Rightarrow> (error + unit) \<times> event list" where
  "update_loop setSt st now retries =
     (if retries > 0 then
        (case setSt now st of
           (Inr r, es) \<Rightarrow> (Inr (), SetStatusCall st # es)
         | (Inl e, es) \<Rightarrow>
             (if retries - 1 \<le> 0 then (Inl e, SetStatusCall st # es @ [Log Error])
              else (case update_loop setSt st (now + (4 - (retries - 1)) * 500) (retries - 1) of
                      (r, es') \<Rightarrow>
                        (r, SetStatusCall st # es @
                            [Log Warn, Wait ((4 - (retries - 1)) * 500)] @ es'))))
      else (Inr (), []))"
  by pat_completeness auto
termination
  by (relation "measure (\<lambda>(setSt, st, now, retries). nat retries)") auto

subsection \<open>startAnimation\<close>

text \<open>The \<^verbatim>\<open>if (statusInterval) { clearInterval(statusInterval); statusInterval = null; }\<close>
  that several methods share.\<close>

definition clear_timer :: "scheduler \<Rightarrow> scheduler \<times> event list" where
  "clear_timer s =
     (case statusInterval s of
        Some t \<Rightarrow> (s\<lparr>statusInterval := None\<rparr>, [ClearInterval t])
      | None \<Rightarrow> (s, []))"

text \<open>
  \<^verbatim>\<open>startAnimation(category)\<close> with the method \<^verbatim>\<open>this.setStatus\<close> as a parameter. The two
  early returns come first; then the old timer is cleared, \<^verbatim>\<open>currentIndex\<close> is reset, the
  first step is set by the loop, and the timer is armed. A throw of the loop, or
  \<^verbatim>\<open>initialSetSuccess\<close> left false, goes to the \<^verbatim>\<open>catch\<close>, which logs and shows the
  failure toast.
\<close>

definition startAnimation_with ::
  "setStatus_method \<Rightarrow> store \<Rightarrow> int \<Rightarrow> string option \<Rightarrow> scheduler \<Rightarrow> scheduler \<times> event list" where
  "startAnimation_with setSt cfg now cat s =
     (if length (animation cfg) = 0
        then (s, [Toast AddSomeStatusAnimations MESSAGE])
      else if length (filteredAnimation cat (animation cfg)) = 0
        then (s, [Toast (NoStatusMessagesInCategory cat) FAILURE])
      else
        (case clear_timer s of
           (s1, es1) \<Rightarrow>
             (let s2 = s1\<lparr>currentIndex := 0\<rparr> in
              (case initial_set_loop setSt (nth_opt (filteredAnimation cat (animation cfg)) 0) now 0 of
                 (Inl e, es2) \<Rightarrow> (s2, es1 @ es2 @ [Log Error, Toast FailedToStart FAILURE])
               | (Inr ok, es2) \<Rightarrow>
                   (if \<not> ok then (s2, es1 @ es2 @ [Log Error, Toast FailedToStart FAILURE])
                    else
                      (let intervalTime = max (timeout cfg * 1000) 5000;
                           t = \<lparr>period = intervalTime, tick_category = cat, tick_debug = True\<rparr>
                       in (s2\<lparr>statusInterval := Some t\<rparr>,
                           es1 @ es2 @ [Log Info, SetInterval t, Log Info,
                                        Toast StatusAnimationStarted SUCCESS])))))))"

definition startAnimation ::
  "host \<Rightarrow> store \<Rightarrow> int \<Rightarrow> string option \<Rightarrow> scheduler \<Rightarrow> scheduler \<times> event list" where
  "startAnimation h = startAnimation_with (setStatus h)"

subsection \<open>updateStatus and the timer callback\<close>

text \<open>
  \<^verbatim>\<open>updateStatus(category)\<close> with the method \<^verbatim>\<open>this.setStatus\<close> as a parameter. \<open>rnd n\<close> is
  the value of \<^verbatim>\<open>Math.floor(Math.random() * n)\<close> in this call. \<open>now\<close> is \<^verbatim>\<open>Date.now()\<close>.
  A throw of the loop goes to the \<^verbatim>\<open>catch\<close>, which logs, clears the timer and shows the
  failure toast.
\<close>

definition updateStatus_with ::
  "setStatus_method \<Rightarrow> store \<Rightarrow> (nat \<Rightarrow> nat) \<Rightarrow> int \<Rightarrow> string option \<Rightarrow> scheduler
     \<Rightarrow> scheduler \<times> event list" where
  "updateStatus_with setSt cfg rnd now cat s =
     (if now - (case lastUpdateTime s of None \<Rightarrow> 0 | Some l \<Rightarrow> l) < 2000
        then (s, [Log Debug])
      else
        (let s1 = s\<lparr>lastUpdateTime := Some now\<rparr>;
             filtered = filteredAnimation cat (animation cfg)
         in if length filtered = 0
            then (case statusInterval s1 of
                    Some t \<Rightarrow> (s1\<lparr>statusInterval := None\<rparr>, [ClearInterval t, Log Warn])
                  | None \<Rightarrow> (s1, []))
            else
              (let nextIndex = (if randomize cfg then rnd (length filtered)
                                else (currentIndex s1 + 1) mod length filtered);
                   s2 = s1\<lparr>currentIndex := nextIndex\<rparr>
               in (case update_loop setSt (nth_opt filtered (currentIndex s2)) now 3 of
                     (Inr u, es) \<Rightarrow> (s2, es)
                   | (Inl e, es) \<Rightarrow>
                       (case clear_timer s2 of
                          (s3, es3) \<Rightarrow>
                            (s3, es @ [Log Error] @ es3 @ [Toast StoppedDueToError FAILURE]))))))"

definition updateStatus ::
  "host \<Rightarrow> store \<Rightarrow> (nat \<Rightarrow> nat) \<Rightarrow> int \<Rightarrow> string option \<Rightarrow> scheduler \<Rightarrow> scheduler \<times> event list" where
  "updateStatus h = updateStatus_with (setStatus h)"

text \<open>
  One firing of the timer, if there is one: the callback given to \<^verbatim>\<open>setInterval\<close> logs, if
  it is the one of \<^verbatim>\<open>startAnimation\<close>, and calls \<^verbatim>\<open>updateStatus\<close> with the category it closed
  over. What the host is, what the store
  holds, the time and the random draw are read afresh at each firing.
\<close>

record firing =
  f_host :: host
  f_store :: store
  f_random :: "nat \<Rightarrow> nat"
  f_now :: int

definition tick :: "firing \<Rightarrow> scheduler \<Rightarrow> scheduler \<times> event list" where
  "tick f s =
     (case statusInterval s of
        None \<Rightarrow> (s, [])
      | Some t \<Rightarrow>
          (case updateStatus (f_host f) (f_store f) (f_random f) (f_now f) (tick_category t) s of
             (s', es) \<Rightarrow> (s', (if tick_debug t then [Log Debug] else []) @ es)))"

fun ticks :: "firing list \<Rightarrow> scheduler \<Rightarrow> scheduler \<times> event list" where
  "ticks [] s = (s, [])"
| "ticks (f # fs) s =
     (case tick f s of
        (s1, es1) \<Rightarrow> (case ticks fs s1 of (s2, es2) \<Rightarrow> (s2, es1 @ es2)))"

subsection \<open>Reading a trace\<close>

text \<open>The steps handed to \<^verbatim>\<open>setStatus\<close>, in order.\<close>

fun applied :: "event list \<Rightarrow> StatusStep list" where
  "applied [] = []"
| "applied (SetStatusCall (Some st) # es) = st # applied es"
| "applied (e # es) = applied es"

text \<open>The number of calls of \<^verbatim>\<open>setStatus\<close>.\<close>

fun attempts :: "event list \<Rightarrow> nat" where
  "attempts [] = 0"
| "attempts (SetStatusCall st # es) = Suc (attempts es)"
| "attempts (e # es) = attempts es"

text \<open>The waits, in milliseconds, in order.\<close>

fun waits :: "event list \<Rightarrow> int list" where
  "waits [] = []"
| "waits (Wait d # es) = d # waits es"
| "waits (e # es) = waits es"

text \<open>The calls of \<^verbatim>\<open>setStatus\<close> and the waits between them, in order.\<close>

fun schedule :: "event list \<Rightarrow> event list" where
  "schedule [] = []"
| "schedule (SetStatusCall st # es) = SetStatusCall st # schedule es"
| "schedule (Wait d # es) = Wait d # schedule es"
| "schedule (e # es) = schedule es"

text \<open>The toasts of type \<^verbatim>\<open>FAILURE\<close>.\<close>

fun failure_toasts :: "event list \<Rightarrow> toast_message list" where
  "failure_toasts [] = []"
| "failure_toasts (Toast m FAILURE # es) = m # failure_toasts es"
| "failure_toasts (e # es) = failure_toasts es"

text \<open>The calls of \<^verbatim>\<open>clearInterval\<close> and \<^verbatim>\<open>setInterval\<close>, in order.\<close>

fun timer_events :: "event list \<Rightarrow> event list" where
  "timer_events [] = []"
| "timer_events (ClearInterval t # es) = ClearInterval t # timer_events es"
| "timer_events (SetInterval t # es) = SetInterval t # timer_events es"
| "timer_events (e # es) = timer_events es"

text \<open>The calls of the two \<^verbatim>\<open>updateSetting\<close> methods of the host, in order.\<close>

fun presence_calls :: "event list \<Rightarrow> event list" where
  "presence_calls [] = []"
| "presence_calls (CustomStatusUpdate p b # es) = CustomStatusUpdate p b # presence_calls es"
| "presence_calls (StatusSettingUpdate v b # es) = StatusSettingUpdate v b # presence_calls es"
| "presence_calls (e # es) = presence_calls es"

subsection \<open>Concrete inputs\<close>

text \<open>Two steps, \<open>step_a\<close> without a category and \<open>step_b\<close> in the category "work", and
  a third, \<open>step_c\<close>, in "work" as well, with a presence state.\<close>

definition step_a :: StatusStep where
  "step_a = \<lparr>step_text = ''A'', emoji_name = None, emoji_id = None, category = None,
             status = None, expires_at = None\<rparr>"

definition step_b :: StatusStep where
  "step_b = \<lparr>step_text = ''B'', emoji_name = None, emoji_id = None, category = Some ''work'',
             status = None, expires_at = None\<rparr>"

definition step_c :: StatusStep where
  "step_c = \<lparr>step_text = ''C'', emoji_name = None, emoji_id = None, category = Some ''work'',
             status = Some ''idle'', expires_at = None\<rparr>"

definition cfg_abc :: store where
  "cfg_abc = \<lparr>timeout = 3, animation = [step_a, step_b, step_c], randomize = False,
              autoStart = True\<rparr>"

definition cfg_empty :: store where
  "cfg_empty = \<lparr>timeout = 10, animation = [], randomize = False, autoStart = True\<rparr>"

text \<open>A host on which every call works, one on which every \<^verbatim>\<open>updateSetting\<close> call is
  rejected, and one on which only the presence-state call is rejected.\<close>

definition host_ok :: host where
  "host_ok = \<lparr>getCached_ok = True, CustomStatus_defined = True,
              CustomStatus_updateSetting = (\<lambda>p. True), StatusSetting_defined = True,
              StatusSetting_updateSetting = (\<lambda>v. True)\<rparr>"

definition host_rejecting :: host where
  "host_rejecting = \<lparr>getCached_ok = True, CustomStatus_defined = True,
              CustomStatus_updateSetting = (\<lambda>p. False), StatusSetting_defined = True,
              StatusSetting_updateSetting = (\<lambda>v. False)\<rparr>"

definition host_presence_rejecting :: host where
  "host_presence_rejecting = \<lparr>getCached_ok = True, CustomStatus_defined = True,
              CustomStatus_updateSetting = (\<lambda>p. True), StatusSetting_defined = True,
              StatusSetting_updateSetting = (\<lambda>v. False)\<rparr>"

text \<open>A \<^verbatim>\<open>setStatus\<close> that throws at every call, which the method of the plugin never does.\<close>

definition always_throws :: setStatus_method where
  "always_throws = (\<lambda>now st. (Inl HostError, []))"


definition pick_first :: "nat \<Rightarrow> nat" where
  "pick_first = (\<lambda>n. 0)"

text \<open>The scheduler before any start, and a running one that has reached index 2.\<close>

definition sched_init :: scheduler where
  "sched_init = \<lparr>currentIndex = 0, statusInterval = None, lastUpdateTime = None\<rparr>"

definition sched_running :: scheduler where
  "sched_running = \<lparr>currentIndex = 2,
                    statusInterval = Some \<lparr>period = 10000, tick_category = None, tick_debug = True\<rparr>,
                    lastUpdateTime = Some 1000000\<rparr>"

definition sched_stopped_at_2 :: scheduler where
  "sched_stopped_at_2 = \<lparr>currentIndex = 2, statusInterval = None, lastUpdateTime = Some 1000000\<rparr>"

text \<open>Whether a call of \<^verbatim>\<open>setStatus\<close> returned \<^verbatim>\<open>{ success: true }\<close>.\<close>

definition succeeded :: "(error + result) \<Rightarrow> bool" where
  "succeeded x = (case x of Inr r \<Rightarrow> success r | Inl e \<Rightarrow> False)"

text \<open>The value of \<^verbatim>\<open>this._lastUpdateTime || 0\<close>.\<close>

definition last_or_zero :: "scheduler \<Rightarrow> int" where
  "last_or_zero s = (case lastUpdateTime s of None \<Rightarrow> 0 | Some l \<Rightarrow> l)"

text \<open>Firings of a timer of period \<open>p\<close> armed or last fired at time \<open>prev\<close>: no firing comes
  sooner than \<open>p\<close> after the one before it.\<close>

fun on_schedule :: "int \<Rightarrow> int \<Rightarrow> firing list \<Rightarrow> bool" where
  "on_schedule p prev [] = True"
| "on_schedule p prev (f # fs) = (prev + p \<le> f_now f \<and> on_schedule p (f_now f) fs)"

text \<open>The timer, if there is one, passes the category \<open>c\<close> to \<^verbatim>\<open>updateStatus\<close>.\<close>

definition bound_to :: "string \<Rightarrow> scheduler \<Rightarrow> bool" where
  "bound_to c s = (case statusInterval s of None \<Rightarrow> True | Some t \<Rightarrow> tick_category t = Some c)"

definition firing_at :: "int \<Rightarrow> firing" where
  "firing_at t = \<lparr>f_host = host_rejecting, f_store = cfg_abc, f_random = pick_first, f_now = t\<rparr>"

section \<open>Properties\<close>

subsection \<open>Reading traces\<close>

lemma applied_append: "applied (xs @ ys) = applied xs @ applied ys"
  by (induction xs rule: applied.induct) simp_all

lemma attempts_append: "attempts (xs @ ys) = attempts xs + attempts ys"
  by (induction xs rule: attempts.induct) simp_all

lemma waits_append: "waits (xs @ ys) = waits xs @ waits ys"
  by (induction xs rule: waits.induct) simp_all

lemma failure_toasts_append: "failure_toasts (xs @ ys) = failure_toasts xs @ failure_toasts ys"
  by (induction xs rule: failure_toasts.induct) simp_all

lemma timer_events_append: "timer_events (xs @ ys) = timer_events xs @ timer_events ys"
  by (induction xs rule: timer_events.induct) simp_all

lemma schedule_append: "schedule (xs @ ys) = schedule xs @ schedule ys"
  by (induction xs rule: schedule.induct) simp_all



lemmas trace_append =
  applied_append attempts_append waits_append failure_toasts_append timer_events_append

subsection \<open>setStatus always returns\<close>

lemma setStatus_returns: "\<exists>r. fst (setStatus h now st) = Inr r"
  by (simp add: setStatus_def split: prod.splits sum.splits)

lemma statusType_update_quiet:
  "applied (statusType_update h v) = []" "attempts (statusType_update h v) = 0"
  "waits (statusType_update h v) = []" "failure_toasts (statusType_update h v) = []"
  "timer_events (statusType_update h v) = []" "schedule (statusType_update h v) = []"
  by (simp_all add: statusType_update_def statusType_try_def)

lemma setStatus_try_quiet:
  "applied (snd (setStatus_try h now st)) = []" "attempts (snd (setStatus_try h now st)) = 0"
  "waits (snd (setStatus_try h now st)) = []" "failure_toasts (snd (setStatus_try h now st)) = []"
  "timer_events (snd (setStatus_try h now st)) = []"
  "schedule (snd (setStatus_try h now st)) = []"
  by (simp_all add: setStatus_try_def Let_def statusType_update_quiet split: option.splits)

lemma setStatus_quiet:
  "applied (snd (setStatus h now st)) = []" "attempts (snd (setStatus h now st)) = 0"
  "waits (snd (setStatus h now st)) = []" "failure_toasts (snd (setStatus h now st)) = []"
  "timer_events (snd (setStatus h now st)) = []"
  "schedule (snd (setStatus h now st)) = []"
  using setStatus_try_quiet [of h now st]
  by (auto simp: setStatus_def trace_append schedule_append split: prod.splits sum.splits)

subsection \<open>The loops with the plugin's own setStatus\<close>

declare initial_set_loop.simps [simp del] update_loop.simps [simp del]

lemma initial_set_loop_setStatus:
  "initial_set_loop (setStatus h) st now 0 = (Inr True, SetStatusCall st # snd (setStatus h now st))"
  using setStatus_returns [of h now st]
  by (subst initial_set_loop.simps) (auto split: prod.splits sum.splits)

lemma update_loop_setStatus:
  "update_loop (setStatus h) st now 3 = (Inr (), SetStatusCall st # snd (setStatus h now st))"
  using setStatus_returns [of h now st]
  by (subst update_loop.simps) (auto split: prod.splits sum.splits)

lemma nth_opt_0: "xs \<noteq> [] \<Longrightarrow> nth_opt xs 0 = Some (hd xs)"
  by (cases xs) (simp_all add: nth_opt_def)

lemma startAnimation_empty:
  "filteredAnimation cat (animation cfg) = [] \<Longrightarrow>
   startAnimation h cfg now cat s =
     (s, [if animation cfg = [] then Toast AddSomeStatusAnimations MESSAGE
          else Toast (NoStatusMessagesInCategory cat) FAILURE])"
  by (simp add: startAnimation_def startAnimation_with_def)

lemma filteredAnimation_nonempty: "filteredAnimation cat anim \<noteq> [] \<Longrightarrow> anim \<noteq> []"
  by (auto simp: filteredAnimation_def split: if_splits)

lemma startAnimation_nonempty:
  assumes "filteredAnimation cat (animation cfg) \<noteq> []"
  shows "startAnimation h cfg now cat s =
     (s\<lparr>currentIndex := 0,
        statusInterval := Some \<lparr>period = max (timeout cfg * 1000) 5000, tick_category = cat, tick_debug = True\<rparr>\<rparr>,
      snd (clear_timer s) @
      SetStatusCall (Some (hd (filteredAnimation cat (animation cfg)))) #
      snd (setStatus h now (Some (hd (filteredAnimation cat (animation cfg))))) @
      [Log Info, SetInterval \<lparr>period = max (timeout cfg * 1000) 5000, tick_category = cat, tick_debug = True\<rparr>,
       Log Info, Toast StatusAnimationStarted SUCCESS])"
  using assms filteredAnimation_nonempty [OF assms]
  by (simp add: startAnimation_def startAnimation_with_def initial_set_loop_setStatus nth_opt_0
      clear_timer_def Let_def split: option.splits)

lemma updateStatus_throttled:
  "now - last_or_zero s < 2000 \<Longrightarrow> updateStatus h cfg rnd now cat s = (s, [Log Debug])"
  by (simp add: updateStatus_def updateStatus_with_def last_or_zero_def)

lemma updateStatus_empty:
  "\<not> now - last_or_zero s < 2000 \<Longrightarrow> filteredAnimation cat (animation cfg) = [] \<Longrightarrow>
   updateStatus h cfg rnd now cat s =
     (s\<lparr>lastUpdateTime := Some now, statusInterval := None\<rparr>,
      (case statusInterval s of Some t \<Rightarrow> [ClearInterval t, Log Warn] | None \<Rightarrow> []))"
  by (simp add: updateStatus_def updateStatus_with_def last_or_zero_def split: option.splits)

lemma updateStatus_applies:
  assumes "\<not> now - last_or_zero s < 2000" "filteredAnimation cat (animation cfg) = fs" "fs \<noteq> []"
    "i = (if randomize cfg then rnd (length fs) else (currentIndex s + 1) mod length fs)"
  shows "updateStatus h cfg rnd now cat s =
     (s\<lparr>lastUpdateTime := Some now, currentIndex := i\<rparr>,
      SetStatusCall (nth_opt fs i) # snd (setStatus h now (nth_opt fs i)))"
  using assms
  by (simp add: updateStatus_def updateStatus_with_def last_or_zero_def update_loop_setStatus Let_def)

lemma timer_events_clear_timer:
  "timer_events (snd (clear_timer s)) =
     (case statusInterval s of Some t \<Rightarrow> [ClearInterval t] | None \<Rightarrow> [])"
  by (simp add: clear_timer_def split: option.splits)

lemma clear_timer_quiet:
  "applied (snd (clear_timer s)) = []" "attempts (snd (clear_timer s)) = 0"
  "waits (snd (clear_timer s)) = []" "failure_toasts (snd (clear_timer s)) = []"
  "schedule (snd (clear_timer s)) = []"
  by (simp_all add: clear_timer_def split: option.splits)

subsection \<open>stop\<close>

text \<open>
  C9. \<^verbatim>\<open>stop\<close> is idempotent. When the scheduler is not running, \<^verbatim>\<open>stop\<close> changes nothing and
  performs no effect; a second \<^verbatim>\<open>stop\<close> right after a first one changes nothing and performs
  no effect either. When the scheduler is running with timer \<open>t\<close>, \<^verbatim>\<open>stop\<close> calls
  \<^verbatim>\<open>clearInterval\<close> on \<open>t\<close> and nothing else on the timer service, sets the handle to null and
  changes no other field; \<^verbatim>\<open>currentIndex\<close> keeps its value, and no call goes to the presence
  service, so the status last set stays.
\<close>

theorem stop_idempotent:
  "(\<not> isRunning s \<longrightarrow> stop s = (s, [])) \<and>
   stop (fst (stop s)) = (fst (stop s), []) \<and>
   \<not> isRunning (fst (stop s)) \<and>
   (\<forall>t. statusInterval s = Some t \<longrightarrow>
      fst (stop s) = s\<lparr>statusInterval := None\<rparr> \<and>
      timer_events (snd (stop s)) = [ClearInterval t]) \<and>
   currentIndex (fst (stop s)) = currentIndex s \<and>
   presence_calls (snd (stop s)) = [] \<and>
   applied (snd (stop s)) = []"
  by (auto simp: stop_def isRunning_def split: option.splits)

theorem stop_idempotent_witness:
  "\<not> isRunning sched_init \<and> stop sched_init = (sched_init, []) \<and>
   statusInterval sched_running = Some \<lparr>period = 10000, tick_category = None, tick_debug = True\<rparr> \<and>
   fst (stop sched_running) = sched_stopped_at_2 \<and>
   timer_events (snd (stop sched_running)) = [ClearInterval \<lparr>period = 10000, tick_category = None, tick_debug = True\<rparr>] \<and>
   stop (fst (stop sched_running)) = (sched_stopped_at_2, [])"
  using stop_idempotent [of sched_init] stop_idempotent [of sched_running]
  by (simp add: sched_init_def sched_running_def sched_stopped_at_2_def isRunning_def stop_def)

subsection \<open>The period of the timer\<close>

text \<open>
  C5. The timer armed by \<^verbatim>\<open>updateInterval(n)\<close> on a running scheduler has the period
  \<open>max (n * 1000) 5000\<close> milliseconds, for every integer \<open>n\<close>, and the one armed by a
  \<^verbatim>\<open>startAnimation\<close> whose step list is not empty has the period
  \<open>max (timeout * 1000) 5000\<close>, for every integer \<^verbatim>\<open>settings.store.timeout\<close>. So the period is
  never less than 5000, and it is exactly 5000 when the number of seconds is less than 5.
  On a scheduler that is not running, \<^verbatim>\<open>updateInterval\<close> arms nothing.
\<close>

theorem interval_floor:
  "(\<forall>t. statusInterval s = Some t \<longrightarrow>
      statusInterval (fst (updateInterval n s)) =
        Some \<lparr>period = max (n * 1000) 5000, tick_category = None, tick_debug = False\<rparr> \<and>
      timer_events (snd (updateInterval n s)) =
        [ClearInterval t, SetInterval \<lparr>period = max (n * 1000) 5000, tick_category = None, tick_debug = False\<rparr>] \<and>
      5000 \<le> period (the (statusInterval (fst (updateInterval n s)))) \<and>
      (n < 5 \<longrightarrow> period (the (statusInterval (fst (updateInterval n s)))) = 5000)) \<and>
   (statusInterval s = None \<longrightarrow> updateInterval n s = (s, [])) \<and>
   (filteredAnimation cat (animation cfg) \<noteq> [] \<longrightarrow>
      statusInterval (fst (startAnimation h cfg now cat s)) =
        Some \<lparr>period = max (timeout cfg * 1000) 5000, tick_category = cat, tick_debug = True\<rparr> \<and>
      last (timer_events (snd (startAnimation h cfg now cat s))) =
        SetInterval \<lparr>period = max (timeout cfg * 1000) 5000, tick_category = cat, tick_debug = True\<rparr> \<and>
      5000 \<le> period (the (statusInterval (fst (startAnimation h cfg now cat s)))) \<and>
      (timeout cfg < 5 \<longrightarrow>
         period (the (statusInterval (fst (startAnimation h cfg now cat s)))) = 5000))"
proof -
  have upd: "\<forall>t. statusInterval s = Some t \<longrightarrow>
      statusInterval (fst (updateInterval n s)) =
        Some \<lparr>period = max (n * 1000) 5000, tick_category = None, tick_debug = False\<rparr> \<and>
      timer_events (snd (updateInterval n s)) =
        [ClearInterval t, SetInterval \<lparr>period = max (n * 1000) 5000, tick_category = None, tick_debug = False\<rparr>] \<and>
      5000 \<le> period (the (statusInterval (fst (updateInterval n s)))) \<and>
      (n < 5 \<longrightarrow> period (the (statusInterval (fst (updateInterval n s)))) = 5000)"
    by (auto simp: updateInterval_def Let_def)
  have idle: "statusInterval s = None \<longrightarrow> updateInterval n s = (s, [])"
    by (simp add: updateInterval_def)
  have start: "filteredAnimation cat (animation cfg) \<noteq> [] \<longrightarrow>
      statusInterval (fst (startAnimation h cfg now cat s)) =
        Some \<lparr>period = max (timeout cfg * 1000) 5000, tick_category = cat, tick_debug = True\<rparr> \<and>
      last (timer_events (snd (startAnimation h cfg now cat s))) =
        SetInterval \<lparr>period = max (timeout cfg * 1000) 5000, tick_category = cat, tick_debug = True\<rparr> \<and>
      5000 \<le> period (the (statusInterval (fst (startAnimation h cfg now cat s)))) \<and>
      (timeout cfg < 5 \<longrightarrow>
         period (the (statusInterval (fst (startAnimation h cfg now cat s)))) = 5000)"
    by (auto simp: startAnimation_nonempty trace_append setStatus_quiet)
  from upd idle start show ?thesis by blast
qed

theorem interval_floor_witness:
  "statusInterval sched_running = Some \<lparr>period = 10000, tick_category = None, tick_debug = True\<rparr> \<and>
   (3::int) < 5 \<and>
   statusInterval (fst (updateInterval 3 sched_running)) =
     Some \<lparr>period = 5000, tick_category = None, tick_debug = False\<rparr> \<and>
   statusInterval sched_init = None \<and> updateInterval 3 sched_init = (sched_init, []) \<and>
   filteredAnimation None (animation cfg_abc) \<noteq> [] \<and> timeout cfg_abc < 5 \<and>
   statusInterval (fst (startAnimation host_ok cfg_abc 100000 None sched_init)) =
     Some \<lparr>period = 5000, tick_category = None, tick_debug = True\<rparr>"
  using interval_floor [of sched_running 3 None cfg_abc host_ok 100000]
    interval_floor [of sched_init 3 None cfg_abc host_ok 100000]
  by (simp add: sched_running_def sched_init_def cfg_abc_def filteredAnimation_def truthy_def)

subsection \<open>Starting with no step\<close>

text \<open>
  C6. When the step list, filtered by the category if one is given, is empty,
  \<^verbatim>\<open>startAnimation\<close> shows one toast and does nothing else: "Add some status animations in
  settings!" when there is no step at all, "No status messages in ... category!" when no step
  has the category. It arms no timer, clears none, does not call \<^verbatim>\<open>setStatus\<close> and leaves
  the scheduler state as it was; so a scheduler that was not running is still not running.
\<close>

theorem start_empty_step_set:
  "filteredAnimation cat (animation cfg) = [] \<Longrightarrow>
   fst (startAnimation h cfg now cat s) = s \<and>
   snd (startAnimation h cfg now cat s) =
     [if animation cfg = [] then Toast AddSomeStatusAnimations MESSAGE
      else Toast (NoStatusMessagesInCategory cat) FAILURE] \<and>
   timer_events (snd (startAnimation h cfg now cat s)) = [] \<and>
   attempts (snd (startAnimation h cfg now cat s)) = 0 \<and>
   (\<not> isRunning s \<longrightarrow> \<not> isRunning (fst (startAnimation h cfg now cat s)))"
  by (simp add: startAnimation_empty)

theorem start_empty_step_set_witness:
  "filteredAnimation None (animation cfg_empty) = [] \<and>
   \<not> isRunning sched_init \<and>
   startAnimation host_ok cfg_empty 100000 None sched_init =
     (sched_init, [Toast AddSomeStatusAnimations MESSAGE]) \<and>
   \<not> isRunning (fst (startAnimation host_ok cfg_empty 100000 None sched_init))"
  using start_empty_step_set [of None cfg_empty host_ok 100000 sched_init]
  by (simp add: cfg_empty_def filteredAnimation_def truthy_def sched_init_def isRunning_def
      prod_eq_iff)

subsection \<open>The two calls of setStatus\<close>

lemma setStatus_try_StatusSetting_independent:
  "fst (setStatus_try (h\<lparr>StatusSetting_defined := d, StatusSetting_updateSetting := f\<rparr>) now st) =
   fst (setStatus_try h now st)"
  by (simp add: setStatus_try_def Let_def split: option.splits)

lemma setStatus_StatusSetting_independent:
  "fst (setStatus (h\<lparr>StatusSetting_defined := d, StatusSetting_updateSetting := f\<rparr>) now st) =
   fst (setStatus h now st)"
  using setStatus_try_StatusSetting_independent [where h = h and d = d and f = f and now = now and st = st]
  by (auto simp: setStatus_def split: prod.splits sum.splits)

lemma setStatus_success_iff:
  "succeeded (fst (setStatus h now st)) =
   (\<exists>p. CustomStatusUpdate p True \<in> set (snd (setStatus h now st)))"
  by (auto simp: succeeded_def setStatus_def setStatus_try_def statusType_update_def
      statusType_try_def Let_def split: option.splits)

lemma setStatus_presence_failure:
  "StatusSettingUpdate v False \<in> set (snd (setStatus h now st)) \<Longrightarrow>
   succeeded (fst (setStatus h now st)) \<and>
   (\<exists>p. snd (setStatus h now st) =
      [CustomStatusUpdate p True, StatusSettingUpdate v False, Log Error])"
  by (auto simp: succeeded_def setStatus_def setStatus_try_def statusType_update_def
      statusType_try_def Let_def split: option.splits if_splits)

text \<open>
  C10. In \<^verbatim>\<open>setStatus\<close> the presence-state update is a second call, made after the
  custom-status call: \<^verbatim>\<open>setStatus\<close> returns \<^verbatim>\<open>success: true\<close> exactly when the custom-status
  call was made and resolved, and what it returns is the same whatever the presence-state
  setting is and does. When the presence-state call is rejected, the rejection is caught
  and logged as an error, nothing else follows, and \<^verbatim>\<open>setStatus\<close> returns
  \<^verbatim>\<open>success: true\<close>.
\<close>

theorem setStatus_presence_swallowed:
  "succeeded (fst (setStatus h now st)) =
     (\<exists>p. CustomStatusUpdate p True \<in> set (snd (setStatus h now st))) \<and>
   fst (setStatus (h\<lparr>StatusSetting_defined := d, StatusSetting_updateSetting := f\<rparr>) now st) =
     fst (setStatus h now st) \<and>
   (StatusSettingUpdate v False \<in> set (snd (setStatus h now st)) \<longrightarrow>
      succeeded (fst (setStatus h now st)) \<and>
      (\<exists>p. snd (setStatus h now st) =
         [CustomStatusUpdate p True, StatusSettingUpdate v False, Log Error]))"
  using setStatus_success_iff [of h now st]
    setStatus_StatusSetting_independent [where h = h and d = d and f = f and now = now and st = st]
    setStatus_presence_failure [of v h now st]
  by blast

theorem setStatus_presence_swallowed_witness:
  "StatusSettingUpdate ''idle'' False \<in> set (snd (setStatus host_presence_rejecting 100000 (Some step_c))) \<and>
   succeeded (fst (setStatus host_presence_rejecting 100000 (Some step_c))) \<and>
   last (snd (setStatus host_presence_rejecting 100000 (Some step_c))) = Log Error \<and>
   fst (setStatus host_ok 100000 (Some step_c)) =
     fst (setStatus host_presence_rejecting 100000 (Some step_c))"
  using setStatus_presence_swallowed [where h = host_presence_rejecting and now = 100000
      and st = "Some step_c" and d = True and f = "\<lambda>v. True" and v = "''idle''"]
  by (simp add: host_presence_rejecting_def host_ok_def step_c_def setStatus_def
      setStatus_try_def statusType_update_def statusType_try_def or_else_def truthy_def
      succeeded_def Let_def)

text \<open>
  C2. \<^verbatim>\<open>setStatus\<close> never throws: for every step, also \<^verbatim>\<open>undefined\<close>, and whatever the host
  does, it returns an object. Its callers do not look at that object. So
  \<^verbatim>\<open>startAnimation\<close> calls \<^verbatim>\<open>setStatus\<close> once when the filtered list is not empty (and not at
  all otherwise), never waits and never shows "Failed to start status animation";
  \<^verbatim>\<open>updateStatus\<close> calls it once when the call is not throttled and the filtered list is not
  empty (and not at all otherwise), never waits, never shows a failure toast, and leaves
  the timer as it is as long as the filtered list is not empty.
\<close>

theorem setStatus_never_throws:
  "(\<exists>r. fst (setStatus h now st) = Inr r) \<and>
   attempts (snd (startAnimation h cfg now cat s)) =
     (if filteredAnimation cat (animation cfg) = [] then 0 else 1) \<and>
   waits (snd (startAnimation h cfg now cat s)) = [] \<and>
   FailedToStart \<notin> set (failure_toasts (snd (startAnimation h cfg now cat s))) \<and>
   attempts (snd (updateStatus h cfg rnd now cat s)) =
     (if now - last_or_zero s < 2000 \<or> filteredAnimation cat (animation cfg) = [] then 0 else 1) \<and>
   waits (snd (updateStatus h cfg rnd now cat s)) = [] \<and>
   failure_toasts (snd (updateStatus h cfg rnd now cat s)) = [] \<and>
   (filteredAnimation cat (animation cfg) \<noteq> [] \<longrightarrow>
      statusInterval (fst (updateStatus h cfg rnd now cat s)) = statusInterval s)"
proof -
  have start: "attempts (snd (startAnimation h cfg now cat s)) =
       (if filteredAnimation cat (animation cfg) = [] then 0 else 1) \<and>
     waits (snd (startAnimation h cfg now cat s)) = [] \<and>
     FailedToStart \<notin> set (failure_toasts (snd (startAnimation h cfg now cat s)))"
  proof (cases "filteredAnimation cat (animation cfg) = []")
    case True
    then show ?thesis by (simp add: startAnimation_empty)
  next
    case False
    then show ?thesis
      by (simp add: startAnimation_nonempty trace_append setStatus_quiet clear_timer_quiet)
  qed
  have update: "attempts (snd (updateStatus h cfg rnd now cat s)) =
       (if now - last_or_zero s < 2000 \<or> filteredAnimation cat (animation cfg) = [] then 0 else 1) \<and>
     waits (snd (updateStatus h cfg rnd now cat s)) = [] \<and>
     failure_toasts (snd (updateStatus h cfg rnd now cat s)) = [] \<and>
     (filteredAnimation cat (animation cfg) \<noteq> [] \<longrightarrow>
        statusInterval (fst (updateStatus h cfg rnd now cat s)) = statusInterval s)"
  proof (cases "now - last_or_zero s < 2000")
    case True
    then show ?thesis by (simp add: updateStatus_throttled)
  next
    case fresh: False
    show ?thesis
    proof (cases "filteredAnimation cat (animation cfg) = []")
      case True
      with fresh show ?thesis by (simp add: updateStatus_empty split: option.splits)
    next
      case False
      with fresh show ?thesis
        by (simp add: updateStatus_applies [OF fresh refl False refl] setStatus_quiet)
    qed
  qed
  from setStatus_returns [of h now st] start update show ?thesis by blast
qed

theorem setStatus_never_throws_witness:
  "filteredAnimation None (animation cfg_abc) \<noteq> [] \<and>
   fst (setStatus host_rejecting 2000000 None) = Inr \<lparr>success = False, err = Some TypeError\<rparr> \<and>
   attempts (snd (updateStatus host_rejecting cfg_abc pick_first 2000000 None sched_running)) = 1 \<and>
   statusInterval (fst (updateStatus host_rejecting cfg_abc pick_first 2000000 None sched_running)) =
     statusInterval sched_running"
  using setStatus_never_throws [where h = host_rejecting and now = 2000000 and st = None
      and cfg = cfg_abc and cat = None and s = sched_running and rnd = pick_first]
  by (simp add: cfg_abc_def filteredAnimation_def truthy_def sched_running_def last_or_zero_def
      host_rejecting_def setStatus_def setStatus_try_def)

subsection \<open>A tick on which the presence service rejects the update\<close>

text \<open>What the \<^verbatim>\<open>catch\<close> of \<^verbatim>\<open>updateStatus\<close> does when an exception does reach it, as it would
  from a \<^verbatim>\<open>setStatus\<close> that throws: three calls, the waits of 1000 and 1500 milliseconds
  between them, then the timer is cleared and the failure toast shown once.\<close>

lemma update_loop_always_throws:
  "update_loop always_throws st now 3 =
     (Inl HostError, [SetStatusCall st, Log Warn, Wait 1000, SetStatusCall st, Log Warn, Wait 1500,
                      SetStatusCall st, Log Error])"
  apply (subst update_loop.simps, simp add: always_throws_def)
  apply (subst update_loop.simps, simp add: always_throws_def)
  apply (subst update_loop.simps, simp add: always_throws_def)
  done


lemma updateStatus_with_exhausted:
  assumes "\<not> now - last_or_zero s < 2000" "filteredAnimation cat (animation cfg) \<noteq> []"
  shows "\<not> isRunning (fst (updateStatus_with always_throws cfg rnd now cat s)) \<and>
         failure_toasts (snd (updateStatus_with always_throws cfg rnd now cat s)) = [StoppedDueToError] \<and>
         attempts (snd (updateStatus_with always_throws cfg rnd now cat s)) = 3"
  using assms
  by (simp add: updateStatus_with_def last_or_zero_def update_loop_always_throws Let_def
      clear_timer_def isRunning_def split: option.splits)

text \<open>
  C1. The plugin's own \<^verbatim>\<open>updateStatus\<close> on a host that rejects every
  \<^verbatim>\<open>CustomStatus.updateSetting\<close> call: the scheduler is running at index 2 of three steps, the
  tick is not throttled. \<^verbatim>\<open>setStatus\<close> reports \<^verbatim>\<open>success: false\<close>; \<^verbatim>\<open>updateStatus\<close> has called it
  once, shows no failure toast, and the scheduler is still running.
\<close>

theorem updateStatus_failed_apply_keeps_running:
  "\<not> succeeded (fst (setStatus host_rejecting 2000000 (Some step_a))) \<and>
   attempts (snd (updateStatus host_rejecting cfg_abc pick_first 2000000 None sched_running)) = 1 \<and>
   applied (snd (updateStatus host_rejecting cfg_abc pick_first 2000000 None sched_running)) = [step_a] \<and>
   failure_toasts (snd (updateStatus host_rejecting cfg_abc pick_first 2000000 None sched_running)) = [] \<and>
   isRunning (fst (updateStatus host_rejecting cfg_abc pick_first 2000000 None sched_running))"
  by (simp add: updateStatus_def updateStatus_with_def update_loop.simps [of _ _ _ 3]
      setStatus_def setStatus_try_def host_rejecting_def cfg_abc_def sched_running_def
      filteredAnimation_def truthy_def nth_opt_def isRunning_def succeeded_def Let_def)

subsection \<open>What a start resets\<close>

text \<open>
  C8, as the claim states it, fails: a \<^verbatim>\<open>startAnimation\<close> that finds no step returns before
  \<^verbatim>\<open>currentIndex = 0\<close>. Here the index is 2 and the store has no step, or no step of the
  category "fun"; the index is still 2 afterwards.
\<close>

theorem start_reset_counterexample:
  "currentIndex (fst (startAnimation host_ok cfg_empty 2000000 None sched_running)) = 2 \<and>
   currentIndex (fst (startAnimation host_ok cfg_abc 2000000 (Some ''fun'') sched_running)) = 2 \<and>
   currentIndex (fst (startAnimation host_ok cfg_empty 2000000 None sched_running)) \<noteq> 0"
  by (simp add: startAnimation_def startAnimation_with_def cfg_empty_def cfg_abc_def
      sched_running_def filteredAnimation_def truthy_def step_a_def step_b_def step_c_def)

text \<open>
  C8, amended. A \<^verbatim>\<open>startAnimation\<close> whose filtered step list is not empty sets
  \<^verbatim>\<open>currentIndex\<close> to 0; on the timer service it first clears the timer that was running, if
  there was one, and then arms the new one, and does nothing else there. A
  \<^verbatim>\<open>startAnimation\<close> whose filtered step list is empty leaves \<^verbatim>\<open>currentIndex\<close> as it was and
  does not touch the timer.
\<close>

theorem start_resets_index:
  "(filteredAnimation cat (animation cfg) \<noteq> [] \<longrightarrow>
      currentIndex (fst (startAnimation h cfg now cat s)) = 0 \<and>
      timer_events (snd (startAnimation h cfg now cat s)) =
        (case statusInterval s of Some t \<Rightarrow> [ClearInterval t] | None \<Rightarrow> []) @
        [SetInterval \<lparr>period = max (timeout cfg * 1000) 5000, tick_category = cat, tick_debug = True\<rparr>] \<and>
      statusInterval (fst (startAnimation h cfg now cat s)) =
        Some \<lparr>period = max (timeout cfg * 1000) 5000, tick_category = cat, tick_debug = True\<rparr>) \<and>
   (filteredAnimation cat (animation cfg) = [] \<longrightarrow>
      currentIndex (fst (startAnimation h cfg now cat s)) = currentIndex s \<and>
      statusInterval (fst (startAnimation h cfg now cat s)) = statusInterval s \<and>
      timer_events (snd (startAnimation h cfg now cat s)) = [])"
proof (cases "filteredAnimation cat (animation cfg) = []")
  case True
  then show ?thesis by (simp add: startAnimation_empty)
next
  case False
  then show ?thesis
    by (simp add: startAnimation_nonempty trace_append setStatus_quiet timer_events_clear_timer)
qed

theorem start_resets_index_witness:
  "filteredAnimation (Some ''work'') (animation cfg_abc) \<noteq> [] \<and>
   currentIndex sched_running = 2 \<and>
   currentIndex (fst (startAnimation host_ok cfg_abc 2000000 (Some ''work'') sched_running)) = 0 \<and>
   timer_events (snd (startAnimation host_ok cfg_abc 2000000 (Some ''work'') sched_running)) =
     [ClearInterval \<lparr>period = 10000, tick_category = None, tick_debug = True\<rparr>,
      SetInterval \<lparr>period = 5000, tick_category = Some ''work'', tick_debug = True\<rparr>] \<and>
   filteredAnimation None (animation cfg_empty) = [] \<and>
   currentIndex (fst (startAnimation host_ok cfg_empty 2000000 None sched_running)) = 2"
  using start_resets_index [where cat = "Some ''work''" and cfg = cfg_abc and h = host_ok
      and now = 2000000 and s = sched_running]
    start_resets_index [where cat = None and cfg = cfg_empty and h = host_ok
      and now = 2000000 and s = sched_running]
  by (simp add: cfg_abc_def cfg_empty_def sched_running_def filteredAnimation_def truthy_def
      step_a_def step_b_def step_c_def)

subsection \<open>The schedule of the retries\<close>














subsection \<open>Sequential order\<close>

lemma tick_sequential:
  assumes "statusInterval s = Some t" "\<not> randomize (f_store f)"
    "filteredAnimation (tick_category t) (animation (f_store f)) = fs" "fs \<noteq> []"
    "\<not> f_now f - last_or_zero s < 2000"
  shows "tick f s =
     (s\<lparr>lastUpdateTime := Some (f_now f), currentIndex := (currentIndex s + 1) mod length fs\<rparr>,
      (if tick_debug t then [Log Debug] else []) @
      SetStatusCall (Some (fs ! ((currentIndex s + 1) mod length fs))) #
      snd (setStatus (f_host f) (f_now f) (Some (fs ! ((currentIndex s + 1) mod length fs)))))"
proof -
  have "(currentIndex s + 1) mod length fs < length fs"
    using assms(4) by simp
  then have "nth_opt fs ((currentIndex s + 1) mod length fs) =
      Some (fs ! ((currentIndex s + 1) mod length fs))"
    by (simp add: nth_opt_def)
  then show ?thesis
    using assms(1,2) updateStatus_applies [OF assms(5) assms(3) assms(4) refl,
        where h = "f_host f" and rnd = "f_random f"]
    by (simp add: tick_def)
qed

lemma rotation_shift:
  "fs ! ((c + 1) mod N) # map (\<lambda>k. fs ! (((c + 1) mod N + k) mod N)) [1..<Suc n] =
   map (\<lambda>k. fs ! ((c + k) mod N)) [1..<Suc (Suc n)]"
proof -
  have "[1..<Suc (Suc n)] = 1 # map Suc [1..<Suc n]"
    by (simp add: map_Suc_upt upt_conv_Cons)
  moreover have "((c + 1) mod N + k) mod N = (c + Suc k) mod N" for k
    by (simp add: mod_add_left_eq)
  ultimately show ?thesis by (simp add: comp_def)
qed

lemma ticks_sequential:
  assumes "statusInterval s = Some t"
    "\<forall>f \<in> set firings. \<not> randomize (f_store f) \<and>
        filteredAnimation (tick_category t) (animation (f_store f)) = fs"
    "fs \<noteq> []" "2000 \<le> p" "on_schedule p prev firings" "last_or_zero s \<le> prev"
    "currentIndex s < length fs"
  shows "statusInterval (fst (ticks firings s)) = Some t \<and>
     currentIndex (fst (ticks firings s)) = (currentIndex s + length firings) mod length fs \<and>
     applied (snd (ticks firings s)) =
       map (\<lambda>k. fs ! ((currentIndex s + k) mod length fs)) [1..<Suc (length firings)]"
  using assms
proof (induction firings arbitrary: s prev)
  case Nil
  then show ?case by simp
next
  case (Cons f firings)
  let ?s1 = "s\<lparr>lastUpdateTime := Some (f_now f),
                currentIndex := (currentIndex s + 1) mod length fs\<rparr>"
  let ?e1 = "(if tick_debug t then [Log Debug] else []) @
      SetStatusCall (Some (fs ! ((currentIndex s + 1) mod length fs))) #
      snd (setStatus (f_host f) (f_now f) (Some (fs ! ((currentIndex s + 1) mod length fs))))"
  have fresh: "\<not> f_now f - last_or_zero s < 2000"
    using Cons.prems(4,5,6) by simp
  have here: "\<not> randomize (f_store f)"
    "filteredAnimation (tick_category t) (animation (f_store f)) = fs"
    using Cons.prems(2) by simp_all
  have step: "tick f s = (?s1, ?e1)"
    by (rule tick_sequential [OF Cons.prems(1) here Cons.prems(3) fresh])
  have rest: "statusInterval (fst (ticks firings ?s1)) = Some t \<and>
     currentIndex (fst (ticks firings ?s1)) = (currentIndex ?s1 + length firings) mod length fs \<and>
     applied (snd (ticks firings ?s1)) =
       map (\<lambda>k. fs ! ((currentIndex ?s1 + k) mod length fs)) [1..<Suc (length firings)]"
  proof (rule Cons.IH [where prev = "f_now f"])
    show "statusInterval ?s1 = Some t" using Cons.prems(1) by simp
    show "\<forall>f \<in> set firings. \<not> randomize (f_store f) \<and>
        filteredAnimation (tick_category t) (animation (f_store f)) = fs"
      using Cons.prems(2) by simp
    show "fs \<noteq> []" by fact
    show "2000 \<le> p" by fact
    show "on_schedule p (f_now f) firings" using Cons.prems(5) by simp
    show "last_or_zero ?s1 \<le> f_now f" by (simp add: last_or_zero_def)
    show "currentIndex ?s1 < length fs" using Cons.prems(3) by simp
  qed
  have idx: "((currentIndex s + 1) mod length fs + length firings) mod length fs =
      (currentIndex s + length (f # firings)) mod length fs"
    by (simp add: mod_add_left_eq)
  show ?case
    using rest idx
      rotation_shift [of fs "currentIndex s" "length fs" "length firings"]
    by (simp add: step applied_append setStatus_quiet case_prod_beta)
qed

lemma rotate1_by_index:
  assumes "fs \<noteq> []"
  shows "map (\<lambda>k. fs ! (k mod length fs)) [1..<Suc (length fs)] = rotate1 fs"
proof (rule nth_equalityI)
  show "length (map (\<lambda>k. fs ! (k mod length fs)) [1..<Suc (length fs)]) = length (rotate1 fs)"
    by (simp del: upt_Suc)
next
  fix i
  assume "i < length (map (\<lambda>k. fs ! (k mod length fs)) [1..<Suc (length fs)])"
  then have i: "i < length fs" by (simp del: upt_Suc)
  then show "map (\<lambda>k. fs ! (k mod length fs)) [1..<Suc (length fs)] ! i = rotate1 fs ! i"
    by (simp add: nth_rotate1 nth_map_upt del: upt_Suc)
qed

subsection \<open>The category of a run\<close>

lemma filteredAnimation_category:
  "c \<noteq> [] \<Longrightarrow> st \<in> set (filteredAnimation (Some c) anim) \<Longrightarrow> category st = Some c"
  by (simp add: filteredAnimation_def truthy_def)

lemma nth_opt_in_set: "nth_opt xs i = Some x \<Longrightarrow> x \<in> set xs"
  by (auto simp: nth_opt_def split: if_splits)

lemma applied_call: "set (applied [SetStatusCall x]) = set_option x"
  by (cases x) simp_all

lemma updateStatus_applied:
  "set (applied (snd (updateStatus h cfg rnd now cat s))) \<subseteq>
     set (filteredAnimation cat (animation cfg))"
proof (cases "now - last_or_zero s < 2000")
  case True
  then show ?thesis by (simp add: updateStatus_throttled)
next
  case fresh: False
  show ?thesis
  proof (cases "filteredAnimation cat (animation cfg) = []")
    case True
    with fresh show ?thesis by (simp add: updateStatus_empty split: option.splits)
  next
    case False
    show ?thesis
      using nth_opt_in_set [of "filteredAnimation cat (animation cfg)"]
      by (cases "nth_opt (filteredAnimation cat (animation cfg))
            (if randomize cfg then rnd (length (filteredAnimation cat (animation cfg)))
             else (currentIndex s + 1) mod length (filteredAnimation cat (animation cfg)))")
        (auto simp: updateStatus_applies [OF fresh refl False refl] setStatus_quiet)
  qed
qed

lemma updateStatus_timer:
  "statusInterval (fst (updateStatus h cfg rnd now cat s)) = None \<or>
   statusInterval (fst (updateStatus h cfg rnd now cat s)) = statusInterval s"
proof (cases "now - last_or_zero s < 2000")
  case True
  then show ?thesis by (simp add: updateStatus_throttled)
next
  case fresh: False
  show ?thesis
  proof (cases "filteredAnimation cat (animation cfg) = []")
    case True
    with fresh show ?thesis by (simp add: updateStatus_empty)
  next
    case False
    show ?thesis by (simp add: updateStatus_applies [OF fresh refl False refl])
  qed
qed

lemma tick_bound_to:
  assumes "bound_to c s" "c \<noteq> []"
  shows "bound_to c (fst (tick f s)) \<and> (\<forall>st \<in> set (applied (snd (tick f s))). category st = Some c)"
proof (cases "statusInterval s")
  case None
  with assms show ?thesis by (simp add: tick_def)
next
  case (Some t)
  with assms(1) have cat: "tick_category t = Some c" by (simp add: bound_to_def)
  have "set (applied (snd (tick f s))) \<subseteq> set (filteredAnimation (Some c) (animation (f_store f)))"
    using updateStatus_applied [of "f_host f" "f_store f" "f_random f" "f_now f" "Some c" s]
    by (simp add: tick_def Some cat case_prod_beta)
  moreover have "bound_to c (fst (tick f s))"
    using updateStatus_timer [of "f_host f" "f_store f" "f_random f" "f_now f" "Some c" s] assms(1)
    by (auto simp: tick_def Some cat bound_to_def case_prod_beta)
  ultimately show ?thesis
    using filteredAnimation_category [OF assms(2)] by blast
qed

lemma ticks_bound_to:
  assumes "bound_to c s" "c \<noteq> []"
  shows "\<forall>st \<in> set (applied (snd (ticks firings s))). category st = Some c"
  using assms(1)
proof (induction firings arbitrary: s)
  case Nil
  then show ?case by simp
next
  case (Cons f firings)
  from tick_bound_to [OF Cons.prems assms(2), of f]
  have one: "bound_to c (fst (tick f s))"
    "\<forall>st \<in> set (applied (snd (tick f s))). category st = Some c"
    by simp_all
  from Cons.IH [OF one(1)] one(2) show ?case
    by (auto simp: applied_append case_prod_beta)
qed

text \<open>
  C4. In a run that is not randomized, a call of \<^verbatim>\<open>updateStatus\<close> that is not throttled and
  finds the filtered list \<open>fs\<close> not empty stores \<open>(currentIndex + 1) mod length fs\<close> in
  \<^verbatim>\<open>currentIndex\<close> and applies the step at that index. So after a \<^verbatim>\<open>startAnimation\<close>, which
  applies the first step, the firings of the timer it armed apply the steps at the indices
  1, 2, ... modulo the length, as long as the filtered list stays the same; after as many
  firings as there are steps, the steps applied are the list rotated by one, and
  \<^verbatim>\<open>currentIndex\<close> is 0 again. The firings are those of the timer: none comes sooner than
  one period after the start or after the firing before it, and the last update was not
  after the start; with the period of at least 5000 milliseconds, no firing is throttled.
\<close>

theorem sequential_rotation:
  assumes "filteredAnimation cat (animation cfg) = fs" "fs \<noteq> []"
    "\<forall>f \<in> set firings. \<not> randomize (f_store f) \<and>
        filteredAnimation cat (animation (f_store f)) = fs"
    "on_schedule (max (timeout cfg * 1000) 5000) t0 firings"
    "last_or_zero s \<le> t0"
  shows "(\<not> randomize cfg \<and> \<not> now - last_or_zero s' < 2000 \<longrightarrow>
           currentIndex (fst (updateStatus h' cfg rnd now cat s')) =
             (currentIndex s' + 1) mod length fs \<and>
           applied (snd (updateStatus h' cfg rnd now cat s')) =
             [fs ! ((currentIndex s' + 1) mod length fs)]) \<and>
         applied (snd (startAnimation h cfg t0 cat s)) = [fs ! 0] \<and>
         applied (snd (ticks firings (fst (startAnimation h cfg t0 cat s)))) =
           map (\<lambda>k. fs ! (k mod length fs)) [1..<Suc (length firings)] \<and>
         currentIndex (fst (ticks firings (fst (startAnimation h cfg t0 cat s)))) =
           length firings mod length fs \<and>
         (length firings = length fs \<longrightarrow>
            applied (snd (ticks firings (fst (startAnimation h cfg t0 cat s)))) = rotate1 fs \<and>
            currentIndex (fst (ticks firings (fst (startAnimation h cfg t0 cat s)))) = 0)"
proof -
  let ?t = "\<lparr>period = max (timeout cfg * 1000) 5000, tick_category = cat, tick_debug = True\<rparr>"
  let ?s1 = "s\<lparr>currentIndex := 0, statusInterval := Some ?t\<rparr>"
  have nonempty: "filteredAnimation cat (animation cfg) \<noteq> []"
    using assms(1,2) by simp
  have one: "\<not> randomize cfg \<and> \<not> now - last_or_zero s' < 2000 \<longrightarrow>
      currentIndex (fst (updateStatus h' cfg rnd now cat s')) =
        (currentIndex s' + 1) mod length fs \<and>
      applied (snd (updateStatus h' cfg rnd now cat s')) =
        [fs ! ((currentIndex s' + 1) mod length fs)]"
  proof (intro impI, elim conjE)
    assume seq: "\<not> randomize cfg" and fresh: "\<not> now - last_or_zero s' < 2000"
    have "(currentIndex s' + 1) mod length fs < length fs"
      using assms(2) by simp
    then have "nth_opt fs ((currentIndex s' + 1) mod length fs) =
        Some (fs ! ((currentIndex s' + 1) mod length fs))"
      by (simp add: nth_opt_def)
    then show "currentIndex (fst (updateStatus h' cfg rnd now cat s')) =
        (currentIndex s' + 1) mod length fs \<and>
      applied (snd (updateStatus h' cfg rnd now cat s')) =
        [fs ! ((currentIndex s' + 1) mod length fs)]"
      using seq by (simp add: updateStatus_applies [OF fresh assms(1) assms(2) refl] setStatus_quiet)
  qed
  have started: "startAnimation h cfg t0 cat s =
      (?s1, snd (clear_timer s) @ SetStatusCall (Some (hd fs)) #
            snd (setStatus h t0 (Some (hd fs))) @
            [Log Info, SetInterval ?t, Log Info, Toast StatusAnimationStarted SUCCESS])"
    using startAnimation_nonempty [OF nonempty, of h t0 s] assms(1) by simp
  have first: "applied (snd (startAnimation h cfg t0 cat s)) = [fs ! 0]"
    using assms(2)
    by (simp add: started trace_append clear_timer_quiet setStatus_quiet hd_conv_nth)
  have run: "statusInterval (fst (ticks firings ?s1)) = Some ?t \<and>
     currentIndex (fst (ticks firings ?s1)) = (currentIndex ?s1 + length firings) mod length fs \<and>
     applied (snd (ticks firings ?s1)) =
       map (\<lambda>k. fs ! ((currentIndex ?s1 + k) mod length fs)) [1..<Suc (length firings)]"
  proof (rule ticks_sequential [where p = "max (timeout cfg * 1000) 5000" and prev = t0])
    show "statusInterval ?s1 = Some ?t" by simp
    show "\<forall>f \<in> set firings. \<not> randomize (f_store f) \<and>
        filteredAnimation (tick_category ?t) (animation (f_store f)) = fs"
      using assms(3) by simp
    show "fs \<noteq> []" by fact
    show "2000 \<le> max (timeout cfg * 1000) 5000" by simp
    show "on_schedule (max (timeout cfg * 1000) 5000) t0 firings" by fact
    show "last_or_zero ?s1 \<le> t0" using assms(5) by (simp add: last_or_zero_def)
    show "currentIndex ?s1 < length fs" using assms(2) by simp
  qed
  have many: "applied (snd (ticks firings (fst (startAnimation h cfg t0 cat s)))) =
        map (\<lambda>k. fs ! (k mod length fs)) [1..<Suc (length firings)] \<and>
      currentIndex (fst (ticks firings (fst (startAnimation h cfg t0 cat s)))) =
        length firings mod length fs"
    using run by (simp add: started del: upt_Suc)
  have full: "length firings = length fs \<longrightarrow>
      applied (snd (ticks firings (fst (startAnimation h cfg t0 cat s)))) = rotate1 fs \<and>
      currentIndex (fst (ticks firings (fst (startAnimation h cfg t0 cat s)))) = 0"
    using many rotate1_by_index [OF assms(2)] by (simp del: upt_Suc)
  from one first many full show ?thesis by blast
qed

theorem sequential_rotation_witness:
  "filteredAnimation None (animation cfg_abc) = [step_a, step_b, step_c] \<and>
   on_schedule (max (timeout cfg_abc * 1000) 5000) 100000
     [firing_at 105000, firing_at 110000, firing_at 115000] \<and>
   last_or_zero sched_init \<le> 100000 \<and>
   \<not> randomize cfg_abc \<and> \<not> 2000000 - last_or_zero sched_running < 2000 \<and>
   currentIndex (fst (updateStatus host_ok cfg_abc pick_first 2000000 None sched_running)) = 0 \<and>
   applied (snd (startAnimation host_rejecting cfg_abc 100000 None sched_init)) = [step_a] \<and>
   applied (snd (ticks [firing_at 105000, firing_at 110000, firing_at 115000]
       (fst (startAnimation host_rejecting cfg_abc 100000 None sched_init)))) =
     [step_b, step_c, step_a] \<and>
   currentIndex (fst (ticks [firing_at 105000, firing_at 110000, firing_at 115000]
       (fst (startAnimation host_rejecting cfg_abc 100000 None sched_init)))) = 0"
proof -
  have fs: "filteredAnimation None (animation cfg_abc) = [step_a, step_b, step_c]"
    by (simp add: filteredAnimation_def truthy_def cfg_abc_def)
  have stores: "\<forall>f \<in> set [firing_at 105000, firing_at 110000, firing_at 115000].
      \<not> randomize (f_store f) \<and>
      filteredAnimation None (animation (f_store f)) = [step_a, step_b, step_c]"
    by (simp add: firing_at_def filteredAnimation_def truthy_def cfg_abc_def)
  have sched: "on_schedule (max (timeout cfg_abc * 1000) 5000) 100000
      [firing_at 105000, firing_at 110000, firing_at 115000]"
    by (simp add: firing_at_def cfg_abc_def)
  have past: "last_or_zero sched_init \<le> 100000"
    by (simp add: last_or_zero_def sched_init_def)
  have seq: "\<not> randomize cfg_abc" "\<not> 2000000 - last_or_zero sched_running < 2000"
    "currentIndex sched_running = 2"
    by (simp_all add: cfg_abc_def last_or_zero_def sched_running_def)
  show ?thesis
    using sequential_rotation [OF fs _ stores sched past, where h = host_rejecting
        and h' = host_ok and rnd = pick_first and now = 2000000 and s' = sched_running]
      fs sched past seq
    by simp
qed

text \<open>The callback of the timer that \<^verbatim>\<open>startAnimation\<close> arms passes the category on: in a run
  started with a category \<open>c\<close> that is not the empty string, on a step list that has a step
  of that category, the step that \<^verbatim>\<open>startAnimation\<close> applies and every step applied by a
  firing of that timer has the category \<open>c\<close>, whatever the store holds at each firing,
  whatever the host does and whenever the firings come.\<close>

lemma start_timer_keeps_category:
  assumes "c \<noteq> []" "filteredAnimation (Some c) (animation cfg) \<noteq> []"
  shows "\<forall>st \<in> set (applied (snd (startAnimation h cfg t0 (Some c) s)) @
                    applied (snd (ticks firings (fst (startAnimation h cfg t0 (Some c) s))))).
           category st = Some c"
proof -
  have "hd (filteredAnimation (Some c) (animation cfg)) \<in>
      set (filteredAnimation (Some c) (animation cfg))"
    using assms(2) by simp
  then have first: "\<forall>st \<in> set (applied (snd (startAnimation h cfg t0 (Some c) s))).
      category st = Some c"
    using filteredAnimation_category [OF assms(1)]
    by (simp add: startAnimation_nonempty [OF assms(2)] trace_append clear_timer_quiet
        setStatus_quiet)
  have "bound_to c (fst (startAnimation h cfg t0 (Some c) s))"
    by (simp add: startAnimation_nonempty [OF assms(2)] bound_to_def)
  from ticks_bound_to [OF this assms(1), of firings] first show ?thesis
    by auto
qed

text \<open>
  C7. Every step applied during a run started with the category C has the category C. The
  code breaks this when the interval is changed during the run: \<^verbatim>\<open>updateInterval\<close> arms a
  timer whose callback calls \<^verbatim>\<open>updateStatus()\<close> with no category, where the callback of
  \<^verbatim>\<open>startAnimation\<close> calls \<^verbatim>\<open>updateStatus(category)\<close>. Here the store holds the steps A (no
  category), B and C (both "work"); the run is started with "work", which applies B and
  arms a timer bound to "work"; \<^verbatim>\<open>updateInterval(5)\<close> replaces it by a timer bound to no
  category; its next three firings apply B, C and A, and A is not in the category "work".
\<close>

theorem updateInterval_drops_category:
  "applied (snd (startAnimation host_ok cfg_abc 100000 (Some ''work'') sched_init)) = [step_b] \<and>
   tick_category (the (statusInterval
     (fst (startAnimation host_ok cfg_abc 100000 (Some ''work'') sched_init)))) = Some ''work'' \<and>
   tick_category (the (statusInterval (fst (updateInterval 5
     (fst (startAnimation host_ok cfg_abc 100000 (Some ''work'') sched_init)))))) = None \<and>
   applied (snd (ticks [firing_at 105000, firing_at 110000, firing_at 115000]
      (fst (updateInterval 5
        (fst (startAnimation host_ok cfg_abc 100000 (Some ''work'') sched_init)))))) =
     [step_b, step_c, step_a] \<and>
   category step_a \<noteq> Some ''work''"
proof -
  have fs: "filteredAnimation (Some ''work'') (animation cfg_abc) = [step_b, step_c]"
    by (simp add: filteredAnimation_def truthy_def cfg_abc_def step_a_def step_b_def step_c_def)
  then have nonempty: "filteredAnimation (Some ''work'') (animation cfg_abc) \<noteq> []"
    by simp
  let ?t = "\<lparr>period = 5000, tick_category = None, tick_debug = False\<rparr>"
  let ?s = "sched_init\<lparr>currentIndex := 0, statusInterval := Some ?t\<rparr>"
  have first: "applied (snd (startAnimation host_ok cfg_abc 100000 (Some ''work'') sched_init)) =
      [step_b]"
    by (simp add: startAnimation_nonempty [OF nonempty] fs trace_append clear_timer_quiet
        setStatus_quiet)
  have bound: "tick_category (the (statusInterval
      (fst (startAnimation host_ok cfg_abc 100000 (Some ''work'') sched_init)))) = Some ''work''"
    by (simp add: startAnimation_nonempty [OF nonempty])
  have s: "fst (updateInterval 5
      (fst (startAnimation host_ok cfg_abc 100000 (Some ''work'') sched_init))) = ?s"
    by (simp add: startAnimation_nonempty [OF nonempty] updateInterval_def Let_def)
  have "applied (snd (ticks [firing_at 105000, firing_at 110000, firing_at 115000] ?s)) =
      map (\<lambda>k. [step_a, step_b, step_c] ! ((currentIndex ?s + k) mod length [step_a, step_b, step_c]))
        [1..<Suc (length [firing_at 105000, firing_at 110000, firing_at 115000])]"
    using ticks_sequential [where s = ?s and t = ?t and p = 5000 and prev = 100000
        and fs = "[step_a, step_b, step_c]"
        and firings = "[firing_at 105000, firing_at 110000, firing_at 115000]"]
    by (simp add: firing_at_def cfg_abc_def filteredAnimation_def truthy_def last_or_zero_def
        sched_init_def)
  then have run: "applied (snd (ticks [firing_at 105000, firing_at 110000, firing_at 115000]
      (fst (updateInterval 5
        (fst (startAnimation host_ok cfg_abc 100000 (Some ''work'') sched_init)))))) =
     [step_b, step_c, step_a]"
    by (simp add: s upt_rec)
  have "category step_a \<noteq> Some ''work''"
    by (simp add: step_a_def)
  with first bound s run show ?thesis by simp
qed

end
